theory Spec2Isabelle
  imports Main "HOL-Library.Word"
begin

unbundle bit_operations_syntax

section \<open>Bytes and strings\<close>

text \<open>
  A Go \<^verbatim>\<open>[]byte\<close> is a list of 8-bit words; a Go \<^verbatim>\<open>string\<close> is a sequence of bytes
  and is modelled as an Isabelle \<open>string\<close> (a list of 8-bit characters).
  \<open>bytesOf\<close> is the conversion \<^verbatim>\<open>[]byte(s)\<close>, \<open>ord\<close> the numeric value of one byte of
  a string.
\<close>

type_synonym byte = "8 word"

definition ord :: "char \<Rightarrow> nat" where
  "ord c = of_char c"

definition bytesOf :: "string \<Rightarrow> byte list" where
  "bytesOf s = map of_char s"

text \<open>\<^verbatim>\<open>strings.IndexByte\<close>: the position of the first occurrence of a byte, if any.\<close>

fun IndexByte :: "string \<Rightarrow> char \<Rightarrow> nat option" where
  "IndexByte [] c = None"
| "IndexByte (x # xs) c =
     (if x = c then Some 0 else map_option Suc (IndexByte xs c))"

section \<open>encoding/base64 of the Go standard library\<close>

text \<open>
  \<^verbatim>\<open>Verify\<close> decodes with \<^verbatim>\<open>base64.RawStdEncoding\<close> (standard alphabet, no padding
  character, not strict) and encodes with \<^verbatim>\<open>base64.StdEncoding\<close> (standard alphabet,
  padding character \<^verbatim>\<open>=\<close>).
\<close>

definition encodeStd :: string where
  "encodeStd = ''ABCDEFGHIJKLMNOPQRSTUVWXYZabcdefghijklmnopqrstuvwxyz0123456789+/''"

text \<open>\<^verbatim>\<open>enc.decodeMap\<close>: the position of a byte in the alphabet, \<^verbatim>\<open>0xff\<close> for any other byte.\<close>

definition decodeMap :: "char \<Rightarrow> byte" where
  "decodeMap c = (case IndexByte encodeStd c of None \<Rightarrow> 0xFF | Some i \<Rightarrow> of_nat i)"

text \<open>
  The loop of \<^verbatim>\<open>decodeQuantum\<close> for an encoding without padding character: it reads
  up to \<open>k\<close> alphabet bytes, skipping \<^verbatim>\<open>\r\<close> and \<^verbatim>\<open>\n\<close>, and stops at the end of the
  input. Any other byte is a \<^verbatim>\<open>CorruptInputError\<close> (\<open>None\<close>). The result is the list
  of 6-bit values read and the unread rest of the input.
\<close>

fun sextets :: "nat \<Rightarrow> string \<Rightarrow> (byte list \<times> string) option" where
  "sextets 0 src = Some ([], src)"
| "sextets (Suc k) [] = Some ([], [])"
| "sextets (Suc k) (c # cs) =
     (if decodeMap c \<noteq> 0xFF then
        (case sextets k cs of
           None \<Rightarrow> None
         | Some (ds, rest) \<Rightarrow> Some (decodeMap c # ds, rest))
      else if c = CHR 0x0A \<or> c = CHR 0x0D then sextets (Suc k) cs
      else None)"

text \<open>
  The end of \<^verbatim>\<open>decodeQuantum\<close>: \<open>dlen\<close> 6-bit values (the missing ones are 0) are
  packed into 24 bits, of which \<open>dlen - 1\<close> bytes are written.
\<close>

definition quantumBytes :: "byte list \<Rightarrow> byte list" where
  "quantumBytes ds =
     (let d = (\<lambda>j. if j < length ds then (ucast (ds ! j) :: 64 word) else 0);
          val = push_bit 18 (d 0) OR push_bit 12 (d 1) OR push_bit 6 (d 2) OR d 3
      in take (length ds - 1)
           [ucast (drop_bit 16 val), ucast (drop_bit 8 val), ucast val])"

text \<open>
  One call of \<^verbatim>\<open>decodeQuantum\<close>: the bytes it adds and the unread input, or \<open>None\<close>
  for a \<^verbatim>\<open>CorruptInputError\<close> (a byte outside the alphabet, or an input that ends
  after the first byte of a quantum).
\<close>

definition decodeQuantum :: "string \<Rightarrow> (byte list \<times> string) option" where
  "decodeQuantum src =
     (case sextets 4 src of
        None \<Rightarrow> None
      | Some (ds, rest) \<Rightarrow>
          if length ds = 0 then Some ([], rest)
          else if length ds = 1 then None
          else Some (quantumBytes ds, rest))"

text \<open>
  \<^verbatim>\<open>Decode\<close>: quantum after quantum until the input is used up. The result is the
  bytes decoded before the first error and whether there was an error
  (\<^verbatim>\<open>err != nil\<close>).
\<close>

function Decode :: "string \<Rightarrow> byte list \<times> bool" where
  "Decode [] = ([], False)"
| "Decode (c # cs) =
     (case decodeQuantum (c # cs) of
        None \<Rightarrow> ([], True)
      | Some (bs, rest) \<Rightarrow> (case Decode rest of (bs', err) \<Rightarrow> (bs @ bs', err)))"
  by pat_completeness auto
termination
proof (relation "measure length")
  show "wf (measure length)" by simp
next
  fix c :: char and cs :: string and x2 :: "byte list \<times> string"
    and bs :: "byte list" and rest :: string
  assume q: "decodeQuantum (c # cs) = Some x2" and x2: "(bs, rest) = x2"
  have le: "sextets k src = Some (ds, r) \<Longrightarrow> length r \<le> length src" for k src ds r
    by (induction k src arbitrary: ds r rule: sextets.induct)
      (fastforce split: if_splits option.splits)+
  have four: "(4::nat) = Suc 3" by simp
  from q x2 obtain ds where "sextets (Suc 3) (c # cs) = Some (ds, rest)"
    unfolding decodeQuantum_def four
    by (auto split: option.splits if_splits)
  moreover have "sextets (Suc k) (c # cs) = Some (ds, r) \<Longrightarrow> length r < Suc (length cs)"
    for k ds r
    by (fastforce split: if_splits option.splits dest: le)
  ultimately have "length rest < Suc (length cs)" by blast
  then show "(rest, c # cs) \<in> measure length" by simp
qed

text \<open>
  \<^verbatim>\<open>base64.RawStdEncoding.DecodeString\<close>: \<^verbatim>\<open>dbuf[:n], err\<close>, the decoded bytes (also
  after an error: those of the complete quanta before it) and the error.
\<close>

definition DecodeString :: "string \<Rightarrow> byte list \<times> bool" where
  "DecodeString s = Decode s"

text \<open>
  \<^verbatim>\<open>base64.StdEncoding.Encode(dst, src)\<close> writes into a destination slice the caller
  has allocated. An index beyond the end of \<open>dst\<close> is a run-time panic, \<open>None\<close> here.
  \<open>encode_loop dst di src\<close> is the state of the loop with \<open>di\<close> the write position
  and \<open>src\<close> the unread source: three source bytes become four alphabet bytes, a
  last block of one or two bytes is padded with \<^verbatim>\<open>=\<close>.
\<close>

definition encodeByte :: "64 word \<Rightarrow> byte" where
  "encodeByte v = of_char (encodeStd ! unat (v AND 0x3F))"

definition padChar :: byte where
  "padChar = of_char CHR ''=''"

definition put4 :: "byte list \<Rightarrow> nat \<Rightarrow> byte \<Rightarrow> byte \<Rightarrow> byte \<Rightarrow> byte \<Rightarrow> byte list option" where
  "put4 dst di b0 b1 b2 b3 =
     (if di + 3 < length dst
      then Some (dst[di := b0, di + 1 := b1, di + 2 := b2, di + 3 := b3])
      else None)"

fun encode_loop :: "byte list \<Rightarrow> nat \<Rightarrow> byte list \<Rightarrow> byte list option" where
  "encode_loop dst di (a # b # c # src) =
     (let val = push_bit 16 (ucast a :: 64 word) OR push_bit 8 (ucast b) OR ucast c
      in case put4 dst di (encodeByte (drop_bit 18 val)) (encodeByte (drop_bit 12 val))
                (encodeByte (drop_bit 6 val)) (encodeByte val) of
           None \<Rightarrow> None
         | Some dst' \<Rightarrow> encode_loop dst' (di + 4) src)"
| "encode_loop dst di [a, b] =
     (let val = push_bit 16 (ucast a :: 64 word) OR push_bit 8 (ucast b)
      in put4 dst di (encodeByte (drop_bit 18 val)) (encodeByte (drop_bit 12 val))
           (encodeByte (drop_bit 6 val)) padChar)"
| "encode_loop dst di [a] =
     (let val = push_bit 16 (ucast a :: 64 word)
      in put4 dst di (encodeByte (drop_bit 18 val)) (encodeByte (drop_bit 12 val))
           padChar padChar)"
| "encode_loop dst di [] = Some dst"

definition Encode :: "byte list \<Rightarrow> byte list \<Rightarrow> byte list option" where
  "Encode dst src = encode_loop dst 0 src"

text \<open>\<^verbatim>\<open>EncodedLen\<close> of the padded encoding.\<close>

definition EncodedLen :: "nat \<Rightarrow> nat" where
  "EncodedLen n = (n + 2) div 3 * 4"

section \<open>Package strings of the Go standard library\<close>

definition HasPrefix :: "string \<Rightarrow> string \<Rightarrow> bool" where
  "HasPrefix s p = (take (length p) s = p)"

definition HasSuffix :: "string \<Rightarrow> string \<Rightarrow> bool" where
  "HasSuffix s p = (length p \<le> length s \<and> drop (length s - length p) s = p)"

text \<open>
  \<^verbatim>\<open>strings.Cut\<close> with a separator of one byte: the text before the first separator,
  the text after it, and whether there is one (if not, the text before is the whole
  string).
\<close>

fun Cut :: "string \<Rightarrow> char \<Rightarrow> string \<times> string \<times> bool" where
  "Cut [] sep = ([], [], False)"
| "Cut (x # xs) sep =
     (if x = sep then ([], xs, True)
      else (case Cut xs sep of (before, after, found) \<Rightarrow> (x # before, after, found)))"

definition LastIndexByte :: "string \<Rightarrow> char \<Rightarrow> nat option" where
  "LastIndexByte s c =
     (case IndexByte (rev s) c of None \<Rightarrow> None | Some i \<Rightarrow> Some (length s - 1 - i))"

text \<open>\<^verbatim>\<open>strings.Index\<close>: the position of the first occurrence of a substring.\<close>

fun Index :: "string \<Rightarrow> string \<Rightarrow> nat option" where
  "Index [] sub = (if sub = [] then Some 0 else None)"
| "Index (x # xs) sub =
     (if HasPrefix (x # xs) sub then Some 0 else map_option Suc (Index xs sub))"

definition CountByte :: "string \<Rightarrow> char \<Rightarrow> nat" where
  "CountByte s c = length (filter (\<lambda>x. x = c) s)"

text \<open>\<^verbatim>\<open>strings.ToLower\<close> on ASCII text (a URL scheme has only ASCII letters).\<close>

definition lowerByte :: "char \<Rightarrow> char" where
  "lowerByte c = (if ord CHR ''A'' \<le> ord c \<and> ord c \<le> ord CHR ''Z'' then char_of (ord c + 32) else c)"

definition ToLower :: "string \<Rightarrow> string" where
  "ToLower s = map lowerByte s"

section \<open>Package net/url of the Go standard library\<close>

text \<open>
  \<^verbatim>\<open>Verify\<close> calls \<^verbatim>\<open>url.Parse\<close> and \<^verbatim>\<open>URL.Hostname\<close>. The model follows the parsing
  algorithm of the package: fragment, scheme, query, authority (user information and
  host with optional port), path, with the checks of the percent-escapes of each
  part. A parse error is \<open>None\<close>. The fields \<^verbatim>\<open>RawPath\<close>, \<^verbatim>\<open>RawFragment\<close> and
  \<^verbatim>\<open>OmitHost\<close>, which only record how the text was escaped, are left out.

  The library has changed since these sources were written. The model follows the
  releases of their time: \<^verbatim>\<open>parseHost\<close> takes a host that starts with \<^verbatim>\<open>[\<close> as a
  bracketed literal without checking that it is an IPv6 address, and accepts square
  brackets and more than one colon elsewhere in a host. Later releases return a
  parse error for such hosts (for example \<^verbatim>\<open>https://[example.com]\<close> and
  \<^verbatim>\<open>http://a[b]/\<close>). The results below that depend on the parser are about hosts with
  neither square brackets nor colons other than the one before the port, which that
  change does not touch.
\<close>

record Userinfo =
  username :: string
  password :: string
  passwordSet :: bool

record URL =
  Scheme :: string
  Opaque :: string
  User :: "Userinfo option"
  Host :: string
  Path :: string
  ForceQuery :: bool
  RawQuery :: string
  Fragment :: string

definition emptyURL :: URL where
  "emptyURL = \<lparr>Scheme = [], Opaque = [], User = None, Host = [], Path = [],
     ForceQuery = False, RawQuery = [], Fragment = []\<rparr>"

datatype encoding = encodePath | encodePathSegment | encodeHost | encodeZone
  | encodeUserPassword | encodeQueryComponent | encodeFragment

definition isAlpha :: "char \<Rightarrow> bool" where
  "isAlpha c = (ord CHR ''a'' \<le> ord c \<and> ord c \<le> ord CHR ''z'' \<or>
                ord CHR ''A'' \<le> ord c \<and> ord c \<le> ord CHR ''Z'')"

definition isDigit :: "char \<Rightarrow> bool" where
  "isDigit c = (ord CHR ''0'' \<le> ord c \<and> ord c \<le> ord CHR ''9'')"

definition ishex :: "char \<Rightarrow> bool" where
  "ishex c = (isDigit c \<or> ord CHR ''a'' \<le> ord c \<and> ord c \<le> ord CHR ''f'' \<or>
              ord CHR ''A'' \<le> ord c \<and> ord c \<le> ord CHR ''F'')"

definition unhex :: "char \<Rightarrow> nat" where
  "unhex c =
     (if isDigit c then ord c - ord CHR ''0''
      else if ord CHR ''a'' \<le> ord c \<and> ord c \<le> ord CHR ''f'' then ord c - ord CHR ''a'' + 10
      else if ord CHR ''A'' \<le> ord c \<and> ord c \<le> ord CHR ''F'' then ord c - ord CHR ''A'' + 10
      else 0)"

text \<open>
  \<^verbatim>\<open>shouldEscape(c, encodeHost)\<close>, the only mode in which \<^verbatim>\<open>unescape\<close> calls
  \<^verbatim>\<open>shouldEscape\<close>: letters, digits, the sub-delimiters, \<^verbatim>\<open>: [ ] < >\<close>, the quotation marks and the
  unreserved marks need no escape in a host, every other byte does.
\<close>

definition shouldEscapeHost :: "char \<Rightarrow> bool" where
  "shouldEscapeHost c =
     (\<not> (isAlpha c \<or> isDigit c \<or> c \<in> set ''!$&()*+,;=:[]<>'' \<or> c = CHR 0x22 \<or> c = CHR 0x27
         \<or> c \<in> set ''-_.~''))"

text \<open>
  \<^verbatim>\<open>unescape\<close>, first loop: every \<^verbatim>\<open>%\<close> is followed by two hexadecimal digits; in a
  host only non-ASCII bytes (and \<^verbatim>\<open>%25\<close>) may be escaped, and an ASCII byte that would
  need an escape is an error.
\<close>

fun unescape_ok :: "encoding \<Rightarrow> string \<Rightarrow> bool" where
  "unescape_ok mode [] = True"
| "unescape_ok mode (c # s) =
     (if c = CHR ''%'' then
        (case s of
           h1 # h2 # s' \<Rightarrow>
             ishex h1 \<and> ishex h2 \<and>
             \<not> (mode = encodeHost \<and> unhex h1 < 8 \<and> [c, h1, h2] \<noteq> ''%25'') \<and>
             \<not> (mode = encodeZone \<and> [c, h1, h2] \<noteq> ''%25'' \<and>
                unhex h1 * 16 + unhex h2 \<noteq> 32 \<and>
                shouldEscapeHost (char_of (unhex h1 * 16 + unhex h2))) \<and>
             unescape_ok mode s'
         | _ \<Rightarrow> False)
      else if (mode = encodeHost \<or> mode = encodeZone) \<and> ord c < 0x80 \<and> shouldEscapeHost c
      then False
      else unescape_ok mode s)"

text \<open>\<^verbatim>\<open>unescape\<close>, second loop: the text with the escapes replaced.\<close>

fun unescape_text :: "encoding \<Rightarrow> string \<Rightarrow> string" where
  "unescape_text mode [] = []"
| "unescape_text mode (c # s) =
     (if c = CHR ''%'' then
        (case s of
           h1 # h2 # s' \<Rightarrow> char_of (unhex h1 * 16 + unhex h2) # unescape_text mode s'
         | _ \<Rightarrow> [])
      else if c = CHR ''+'' \<and> mode = encodeQueryComponent then CHR '' '' # unescape_text mode s
      else c # unescape_text mode s)"

definition unescape :: "string \<Rightarrow> encoding \<Rightarrow> string option" where
  "unescape s mode = (if unescape_ok mode s then Some (unescape_text mode s) else None)"

definition validOptionalPort :: "string \<Rightarrow> bool" where
  "validOptionalPort port =
     (case port of
        [] \<Rightarrow> True
      | c # ds \<Rightarrow> c = CHR '':'' \<and> list_all isDigit ds)"

definition validUserinfo :: "string \<Rightarrow> bool" where
  "validUserinfo s =
     list_all (\<lambda>r. isAlpha r \<or> isDigit r \<or> r \<in> set ''-._:~!$&()*+,;=%@'' \<or> r = CHR 0x27) s"

definition parseHost :: "string \<Rightarrow> string option" where
  "parseHost host =
     (if HasPrefix host ''['' then
        (case LastIndexByte host CHR '']'' of
           None \<Rightarrow> None
         | Some i \<Rightarrow>
             if \<not> validOptionalPort (drop (i + 1) host) then None
             else
               (case Index (take i host) ''%25'' of
                  Some zone \<Rightarrow>
                    (case unescape (take zone host) encodeHost of
                       None \<Rightarrow> None
                     | Some host1 \<Rightarrow>
                    (case unescape (drop zone (take i host)) encodeZone of
                       None \<Rightarrow> None
                     | Some host2 \<Rightarrow>
                    (case unescape (drop i host) encodeHost of
                       None \<Rightarrow> None
                     | Some host3 \<Rightarrow> Some (host1 @ host2 @ host3))))
                | None \<Rightarrow> unescape host encodeHost))
      else
        (case LastIndexByte host CHR '':'' of
           Some i \<Rightarrow>
             if \<not> validOptionalPort (drop i host) then None else unescape host encodeHost
         | None \<Rightarrow> unescape host encodeHost))"

text \<open>\<^verbatim>\<open>parseAuthority\<close>: \<^verbatim>\<open>[userinfo@]host\<close>; the result is the user and the host.\<close>

definition parseAuthority :: "string \<Rightarrow> (Userinfo option \<times> string) option" where
  "parseAuthority authority =
     (case LastIndexByte authority CHR ''@'' of
        None \<Rightarrow>
          (case parseHost authority of None \<Rightarrow> None | Some host \<Rightarrow> Some (None, host))
      | Some i \<Rightarrow>
          (case parseHost (drop (i + 1) authority) of
             None \<Rightarrow> None
           | Some host \<Rightarrow>
               let userinfo = take i authority in
               if \<not> validUserinfo userinfo then None
               else if CHR '':'' \<notin> set userinfo then
                 (case unescape userinfo encodeUserPassword of
                    None \<Rightarrow> None
                  | Some u \<Rightarrow>
                      Some (Some \<lparr>username = u, password = [], passwordSet = False\<rparr>, host))
               else
                 (case Cut userinfo CHR '':'' of
                    (uname, pword, _) \<Rightarrow>
                      (case unescape uname encodeUserPassword of
                         None \<Rightarrow> None
                       | Some u \<Rightarrow>
                      (case unescape pword encodeUserPassword of
                         None \<Rightarrow> None
                       | Some pw \<Rightarrow>
                           Some (Some \<lparr>username = u, password = pw, passwordSet = True\<rparr>,
                                 host))))))"

text \<open>
  \<^verbatim>\<open>getScheme\<close>: the scheme and the rest after the colon; no scheme if the text does
  not start with a letter or has another byte before the first colon; an error
  (\<open>None\<close>) if it starts with a colon. \<open>i\<close> is the loop index, \<open>s\<close> the text from
  there on.
\<close>

fun getScheme_loop :: "string \<Rightarrow> nat \<Rightarrow> string \<Rightarrow> (string \<times> string) option" where
  "getScheme_loop rawURL i [] = Some ([], rawURL)"
| "getScheme_loop rawURL i (c # s) =
     (if isAlpha c then getScheme_loop rawURL (i + 1) s
      else if isDigit c \<or> c = CHR ''+'' \<or> c = CHR ''-'' \<or> c = CHR ''.'' then
        (if i = 0 then Some ([], rawURL) else getScheme_loop rawURL (i + 1) s)
      else if c = CHR '':'' then
        (if i = 0 then None else Some (take i rawURL, drop (i + 1) rawURL))
      else Some ([], rawURL))"

definition getScheme :: "string \<Rightarrow> (string \<times> string) option" where
  "getScheme rawURL = getScheme_loop rawURL 0 rawURL"

definition stringContainsCTLByte :: "string \<Rightarrow> bool" where
  "stringContainsCTLByte s = list_ex (\<lambda>b. ord b < 0x20 \<or> ord b = 0x7F) s"

text \<open>\<^verbatim>\<open>parse(rawURL, false)\<close>: a URL without fragment.\<close>

definition parse :: "string \<Rightarrow> URL option" where
  "parse rawURL =
     (if stringContainsCTLByte rawURL then None
      else if rawURL = ''*'' then Some (emptyURL\<lparr>Path := ''*''\<rparr>)
      else
        (case getScheme rawURL of
           None \<Rightarrow> None
         | Some (scheme0, rest0) \<Rightarrow>
             let scheme = ToLower scheme0;
                 force = (HasSuffix rest0 ''?'' \<and> CountByte rest0 CHR ''?'' = 1);
                 rest1 = (if force then butlast rest0 else fst (Cut rest0 CHR ''?''));
                 query = (if force then [] else fst (snd (Cut rest0 CHR ''?'')));
                 url = emptyURL\<lparr>Scheme := scheme, ForceQuery := force, RawQuery := query\<rparr>
             in
               if \<not> HasPrefix rest1 ''/'' \<and> scheme \<noteq> [] then Some (url\<lparr>Opaque := rest1\<rparr>)
               else if \<not> HasPrefix rest1 ''/'' \<and> CHR '':'' \<in> set (fst (Cut rest1 CHR ''/''))
               then None
               else if (scheme \<noteq> [] \<or> \<not> HasPrefix rest1 ''///'') \<and> HasPrefix rest1 ''//'' then
                 (case Cut (drop 2 rest1) CHR ''/'' of
                    (authority, after, found) \<Rightarrow>
                      (case parseAuthority authority of
                         None \<Rightarrow> None
                       | Some (user, host) \<Rightarrow>
                           (case unescape (if found then CHR ''/'' # after else []) encodePath of
                              None \<Rightarrow> None
                            | Some path \<Rightarrow> Some (url\<lparr>User := user, Host := host, Path := path\<rparr>))))
               else
                 (case unescape rest1 encodePath of
                    None \<Rightarrow> None
                  | Some path \<Rightarrow> Some (url\<lparr>Path := path\<rparr>))))"

text \<open>\<^verbatim>\<open>url.Parse\<close>: the fragment is cut off at the first \<^verbatim>\<open>#\<close> and unescaped.\<close>

definition Parse :: "string \<Rightarrow> URL option" where
  "Parse rawURL =
     (case Cut rawURL CHR ''#'' of
        (u, frag, _) \<Rightarrow>
          (case parse u of
             None \<Rightarrow> None
           | Some url \<Rightarrow>
               if frag = [] then Some url
               else (case unescape frag encodeFragment of
                       None \<Rightarrow> None
                     | Some f \<Rightarrow> Some (url\<lparr>Fragment := f\<rparr>))))"

text \<open>
  \<^verbatim>\<open>URL.Hostname\<close>: the host without a valid port and without the square brackets of
  an IPv6 literal (\<^verbatim>\<open>splitHostPort\<close>).
\<close>

definition Hostname :: "URL \<Rightarrow> string" where
  "Hostname u =
     (let hostPort = Host u;
          host = (case LastIndexByte hostPort CHR '':'' of
                    Some colon \<Rightarrow>
                      if validOptionalPort (drop colon hostPort) then take colon hostPort
                      else hostPort
                  | None \<Rightarrow> hostPort)
      in if HasPrefix host ''['' \<and> HasSuffix host '']'' then butlast (tl host) else host)"

text \<open>
  The bytes of an origin \<^verbatim>\<open>scheme://host:port/path?query\<close>, to state what the parser
  does with one: the bytes \<^verbatim>\<open>getScheme\<close> lets through in a scheme (after a first
  letter), the bytes of a host name (letters, digits, \<^verbatim>\<open>-\<close> and \<^verbatim>\<open>.\<close>), and those of a
  host name with a port.
\<close>

definition schemeByte :: "char \<Rightarrow> bool" where
  "schemeByte c = (isAlpha c \<or> isDigit c \<or> c = CHR ''+'' \<or> c = CHR ''-'' \<or> c = CHR ''.'')"

definition hostNameByte :: "char \<Rightarrow> bool" where
  "hostNameByte c = (isAlpha c \<or> isDigit c \<or> c = CHR ''-'' \<or> c = CHR ''.'')"

definition hostPortByte :: "char \<Rightarrow> bool" where
  "hostPortByte c = (hostNameByte c \<or> c = CHR '':'')"

section \<open>Package protocol: client data and its verification\<close>

text \<open>
  A Go function either returns or panics. A panic in \<^verbatim>\<open>Verify\<close> is not recovered by
  any code of the package, so it ends the call.
\<close>

datatype 'a outcome = Returned 'a | Panicked

text \<open>
  Modelled from the spec: the declaration of the type \<^verbatim>\<open>Error\<close> of package protocol
  and of its values \<^verbatim>\<open>ErrBadRequest\<close>, \<^verbatim>\<open>ErrVerification\<close> and \<^verbatim>\<open>ErrParsingData\<close> is
  not among the sources; the sources only use them. Errors are typed results: an
  error keeps which of the three values it was made from and the details the code
  attaches with \<^verbatim>\<open>WithDetails\<close>. The developer information of \<^verbatim>\<open>WithInfo\<close> and the
  lines written to standard output are diagnostics and are not part of the model.
\<close>

datatype ErrorValue = ErrBadRequest | ErrVerification | ErrParsingData

record Error =
  Value :: ErrorValue
  Details :: string

definition WithDetails :: "ErrorValue \<Rightarrow> string \<Rightarrow> Error" where
  "WithDetails e details = \<lparr>Value = e, Details = details\<rparr>"

type_synonym CeremonyType = string

definition CreateCeremony :: CeremonyType where
  "CreateCeremony = ''webauthn.create''"

definition AssertCeremony :: CeremonyType where
  "AssertCeremony = ''webauthn.get''"

type_synonym TokenBindingStatus = string

definition Present :: TokenBindingStatus where
  "Present = ''present''"

definition Supported :: TokenBindingStatus where
  "Supported = ''supported''"

record TokenBinding =
  Status :: TokenBindingStatus
  ID :: string

text \<open>\<^verbatim>\<open>TokenBinding\<close> is a pointer in the source: \<open>None\<close> is \<^verbatim>\<open>nil\<close>.\<close>

record CollectedClientData =
  Type :: CeremonyType
  Challenge :: string
  Origin :: string
  TokenBinding :: "TokenBinding option"

text \<open>The errors \<^verbatim>\<open>Verify\<close> returns, under the names the specification gives them.\<close>

definition TypeMismatch :: Error where
  "TypeMismatch = WithDetails ErrVerification ''Error validating ceremony type''"

definition MalformedChallenge :: Error where
  "MalformedChallenge = WithDetails ErrParsingData ''Error parsing the authenticator challenge''"

definition ChallengeMismatch :: Error where
  "ChallengeMismatch = WithDetails ErrVerification ''Error validating challenge''"

definition MalformedOrigin :: Error where
  "MalformedOrigin = WithDetails ErrParsingData ''Error decoding clientData origin as URL''"

definition OriginMismatch :: Error where
  "OriginMismatch = WithDetails ErrVerification ''Error validating origin''"

text \<open>
  Steps 5 and 9 of \<^verbatim>\<open>Verify\<close>, the check of the origin, on its own: the result is the
  error returned, \<open>None\<close> for \<^verbatim>\<open>nil\<close>.
\<close>

definition verifyOrigin :: "string \<Rightarrow> string \<Rightarrow> Error option" where
  "verifyOrigin origin relyingPartyOrigin =
     (case Parse origin of
        None \<Rightarrow> Some MalformedOrigin
      | Some clientDataOrigin \<Rightarrow>
          if Hostname clientDataOrigin \<noteq> relyingPartyOrigin then Some OriginMismatch
          else None)"

text \<open>
  \<^verbatim>\<open>Verify\<close>. The buffer for the encoded stored challenge is allocated with the length
  of the decoded client challenge, and \<^verbatim>\<open>Encode\<close> writes into it before the error of
  the decoding is looked at. The token binding is not read.
\<close>

definition Verify ::
  "CollectedClientData \<Rightarrow> byte list \<Rightarrow> CeremonyType \<Rightarrow> string \<Rightarrow> Error option outcome" where
  "Verify c storedChallenge ceremony relyingPartyOrigin =
     (if Type c \<noteq> ceremony then Returned (Some TypeMismatch)
      else
        (case DecodeString (Challenge c) of
           (clientChallengeBytes, err) \<Rightarrow>
             (case Encode (replicate (length clientChallengeBytes) 0) storedChallenge of
                None \<Rightarrow> Panicked
              | Some encodedStoredChallenge \<Rightarrow>
                  if err then Returned (Some MalformedChallenge)
                  else if encodedStoredChallenge \<noteq> clientChallengeBytes
                  then Returned (Some ChallengeMismatch)
                  else Returned (verifyOrigin (Origin c) relyingPartyOrigin))))"

section \<open>Package webauthn: the login ceremony\<close>






text \<open>
  Modelled from the spec: the declarations of \<^verbatim>\<open>User\<close>, \<^verbatim>\<open>SessionData\<close>, \<^verbatim>\<open>Config\<close>,
  \<^verbatim>\<open>WebAuthn\<close> and \<^verbatim>\<open>PublicKeyCredentialRequestOptions\<close> are not among the sources.
  A user exposes its \<^verbatim>\<open>WebAuthnID\<close>, a byte sequence; the session data hold the
  challenge and the user ID; the request options hold the challenge, the timeout
  and an optional list of the IDs of the allowed credentials. The fields that the
  sources read or write have the names they have there (the challenge of the
  session data and the challenge and timeout of the options carry the name of
  their structure, as field names are global here). The type parameter of \<open>User\<close>
  and \<open>SessionData\<close> is the representation of their byte sequences: \<open>byte list\<close>
  where they are only read, \<open>slice\<close> where the store matters.
\<close>

record 'b User =
  WebAuthnID :: 'b

record 'b SessionData =
  SessionData_Challenge :: 'b
  UserID :: 'b

record Config =
  Timeout :: int

record WebAuthn =
  Config :: Config




text \<open>
  \<^verbatim>\<open>FinishLogin\<close>. \<^verbatim>\<open>ParseCredentialCreationResponse\<close> of package protocol is not among
  the sources and is a parameter: it reads the body of the request, so it returns the
  request as it is after the call together with the parsed response or an error.
  The error made when the IDs differ is not returned: the source drops it and goes
  on. The result is the pair the source returns (\<open>None\<close> is \<^verbatim>\<open>nil\<close>) and the request
  after the call. \<^verbatim>\<open>bytes.Equal\<close> reads the two IDs and compares their bytes, so the
  user and the session data are given with the bytes of their slices.
\<close>

definition FinishLogin ::
  "('req \<Rightarrow> (Error + 'resp) \<times> 'req) \<Rightarrow> WebAuthn \<Rightarrow> byte list User \<Rightarrow>
     byte list SessionData \<Rightarrow> 'req \<Rightarrow> ('cred option \<times> Error option) \<times> 'req" where
  "FinishLogin ParseCredentialCreationResponse webauthn user session response =
     (let dropped = (if WebAuthnID user \<noteq> UserID session
                     then Some (WithDetails ErrBadRequest ''ID mismatch for User and Session'')
                     else None)
      in case ParseCredentialCreationResponse response of
           (Inl err, response') \<Rightarrow> ((None, Some (WithDetails ErrBadRequest ''fuddck'')), response')
         | (Inr parsedResponse, response') \<Rightarrow> ((None, None), response'))"

section \<open>When \<^verbatim>\<open>Verify\<close> panics\<close>

text \<open>
  \<^verbatim>\<open>Encode\<close> writes \<open>EncodedLen (length src)\<close> bytes; it panics exactly when the
  destination is shorter than that.
\<close>

lemma put4_Some:
  "di + 3 < length dst \<Longrightarrow>
   \<exists>dst'. put4 dst di b0 b1 b2 b3 = Some dst' \<and> length dst' = length dst"
  by (simp add: put4_def)

lemma put4_None: "\<not> di + 3 < length dst \<Longrightarrow> put4 dst di b0 b1 b2 b3 = None"
  by (simp add: put4_def)

lemma EncodedLen_simps:
  "EncodedLen 0 = 0" "EncodedLen (Suc 0) = 4" "EncodedLen (Suc (Suc 0)) = 4"
  "EncodedLen (Suc (Suc (Suc n))) = 4 + EncodedLen n"
proof -
  have "(Suc (Suc (Suc n)) + 2) div 3 = Suc ((n + 2) div 3)" by arith
  then show "EncodedLen (Suc (Suc (Suc n))) = 4 + EncodedLen n"
    by (simp add: EncodedLen_def)
qed (simp_all add: EncodedLen_def)

lemma encode_loop_None_iff:
  "di \<le> length dst \<Longrightarrow>
   (encode_loop dst di src = None) = (length dst < di + EncodedLen (length src))"
proof (induction dst di src rule: encode_loop.induct)
  case (1 dst di a b c src)
  define val where "val = push_bit 16 (ucast a :: 64 word) OR push_bit 8 (ucast b) OR ucast c"
  let ?p = "put4 dst di (encodeByte (drop_bit 18 val)) (encodeByte (drop_bit 12 val))
                (encodeByte (drop_bit 6 val)) (encodeByte val)"
  have eq: "encode_loop dst di (a # b # c # src) =
     (case ?p of None \<Rightarrow> None | Some dst' \<Rightarrow> encode_loop dst' (di + 4) src)"
    unfolding val_def by (simp only: encode_loop.simps Let_def)
  show ?case
  proof (cases "di + 3 < length dst")
    case True
    then obtain dst' where p: "?p = Some dst'" and len: "length dst' = length dst"
      using put4_Some by blast
    have le: "di + 4 \<le> length dst'" using True len by simp
    have "(encode_loop dst' (di + 4) src = None) =
          (length dst' < di + 4 + EncodedLen (length src))"
      using "1.IH" [OF val_def p le] .
    then show ?thesis
      unfolding eq p using len by (simp add: EncodedLen_simps add.assoc)
  next
    case False
    then have "?p = None" by (rule put4_None)
    then show ?thesis
      unfolding eq using False by (simp add: EncodedLen_simps)
  qed
next
  case (2 dst di a b)
  then show ?case by (simp add: Let_def put4_def EncodedLen_simps)
next
  case (3 dst di a)
  then show ?case by (simp add: Let_def put4_def EncodedLen_simps)
next
  case (4 dst di)
  then show ?case by (simp add: EncodedLen_simps)
qed

lemma Encode_None_iff: "(Encode dst src = None) = (length dst < EncodedLen (length src))"
  using encode_loop_None_iff [of 0 dst src] by (simp add: Encode_def)

lemma Verify_Panicked_iff:
  "(Verify c storedChallenge ceremony relyingPartyOrigin = Panicked) =
   (Type c = ceremony \<and>
    length (fst (DecodeString (Challenge c))) < EncodedLen (length storedChallenge))"
proof -
  obtain bs err where d: "DecodeString (Challenge c) = (bs, err)"
    by (cases "DecodeString (Challenge c)")
  show ?thesis
  proof (cases "Encode (replicate (length bs) 0) storedChallenge")
    case None
    then have "length bs < EncodedLen (length storedChallenge)"
      by (simp add: Encode_None_iff)
    with None d show ?thesis
      by (simp add: Verify_def)
  next
    case (Some e)
    then have "\<not> length bs < EncodedLen (length storedChallenge)"
      using Encode_None_iff [of "replicate (length bs) 0" storedChallenge]
      by simp
    with Some d show ?thesis
      by (simp add: Verify_def)
  qed
qed


text \<open>
  The encoding of a stored challenge that is not empty is longer than the challenge.
  So a client challenge that decodes to the very bytes of the stored challenge, as the
  comparison of raw bytes would have it, makes \<^verbatim>\<open>Verify\<close> panic.
\<close>

lemma EncodedLen_gt: "0 < n \<Longrightarrow> n < EncodedLen n"
  unfolding EncodedLen_def by arith

lemma Verify_panics_on_matching_challenge:
  assumes "Type c = ceremony" and "storedChallenge \<noteq> []"
    and "fst (DecodeString (Challenge c)) = storedChallenge"
  shows "Verify c storedChallenge ceremony relyingPartyOrigin = Panicked"
proof -
  have "length storedChallenge < EncodedLen (length storedChallenge)"
    using assms(2) by (intro EncodedLen_gt) simp
  then show ?thesis using assms(1, 3) by (simp add: Verify_Panicked_iff)
qed

section \<open>What \<^verbatim>\<open>url.Parse\<close> makes of an origin\<close>

text \<open>
  For a text \<^verbatim>\<open>scheme://host:port/path?query\<close> without fragment, the parser takes the
  scheme up to the first colon, the query from the first question mark, the authority
  up to the next slash, and the rest as the path; \<^verbatim>\<open>Hostname\<close> then drops the port.
\<close>

lemma IndexByte_None: "c \<notin> set s \<Longrightarrow> IndexByte s c = None"
  by (induction s) auto

lemma IndexByte_append: "c \<notin> set xs \<Longrightarrow> IndexByte (xs @ c # ys) c = Some (length xs)"
  by (induction xs) auto

lemma LastIndexByte_None: "c \<notin> set s \<Longrightarrow> LastIndexByte s c = None"
  by (simp add: LastIndexByte_def IndexByte_None)

lemma LastIndexByte_append:
  "c \<notin> set ys \<Longrightarrow> LastIndexByte (xs @ c # ys) c = Some (length xs)"
proof -
  assume "c \<notin> set ys"
  then have "IndexByte (rev ys @ c # rev xs) c = Some (length ys)"
    using IndexByte_append [of c "rev ys" "rev xs"] by simp
  then show ?thesis by (simp add: LastIndexByte_def)
qed

lemma Cut_None: "c \<notin> set s \<Longrightarrow> Cut s c = (s, [], False)"
  by (induction s) auto

lemma Cut_append: "c \<notin> set xs \<Longrightarrow> Cut (xs @ c # ys) c = (xs, ys, True)"
  by (induction xs) auto

lemma byte_facts:
  "\<not> isAlpha CHR '':''" "\<not> isDigit CHR '':''"
  "\<not> isAlpha CHR ''#''" "\<not> isDigit CHR ''#''"
  "\<not> isAlpha CHR ''?''" "\<not> isDigit CHR ''?''"
  "\<not> isAlpha CHR ''/''" "\<not> isDigit CHR ''/''"
  "\<not> isAlpha CHR ''@''" "\<not> isDigit CHR ''@''"
  "\<not> isAlpha CHR ''%''" "\<not> isDigit CHR ''%''"
  "\<not> isAlpha CHR ''[''" "\<not> isDigit CHR ''[''"
  "\<not> isAlpha CHR ''*''" "\<not> isDigit CHR ''*''"
  by (simp_all add: isAlpha_def isDigit_def ord_def)

lemma notin_by_class: "list_all P s \<Longrightarrow> \<not> P c \<Longrightarrow> c \<notin> set s"
  by (auto simp: list_all_iff)

lemma schemeByte_not:
  "\<not> schemeByte CHR '':''" "\<not> schemeByte CHR ''#''" "\<not> schemeByte CHR ''?''"
  "\<not> schemeByte CHR ''/''" "\<not> schemeByte CHR ''*''"
  by (simp_all add: schemeByte_def byte_facts)

lemma hostNameByte_not:
  "\<not> hostNameByte CHR '':''" "\<not> hostNameByte CHR ''#''" "\<not> hostNameByte CHR ''?''"
  "\<not> hostNameByte CHR ''/''" "\<not> hostNameByte CHR ''@''" "\<not> hostNameByte CHR ''%''"
  "\<not> hostNameByte CHR ''[''"
  by (simp_all add: hostNameByte_def byte_facts)

lemma isDigit_not_CTL: "isDigit c \<Longrightarrow> \<not> (ord c < 0x20 \<or> ord c = 0x7F)"
  by (simp add: isDigit_def ord_def)

lemma isAlpha_not_CTL: "isAlpha c \<Longrightarrow> \<not> (ord c < 0x20 \<or> ord c = 0x7F)"
  by (auto simp: isAlpha_def ord_def)

lemma schemeByte_not_CTL: "schemeByte c \<Longrightarrow> \<not> (ord c < 0x20 \<or> ord c = 0x7F)"
  unfolding schemeByte_def using isDigit_not_CTL isAlpha_not_CTL
  by (auto simp: ord_def)

lemma hostNameByte_not_CTL: "hostNameByte c \<Longrightarrow> \<not> (ord c < 0x20 \<or> ord c = 0x7F)"
  unfolding hostNameByte_def using isDigit_not_CTL isAlpha_not_CTL
  by (auto simp: ord_def)

lemma CTL_append:
  "stringContainsCTLByte (a @ b) = (stringContainsCTLByte a \<or> stringContainsCTLByte b)"
  by (simp add: stringContainsCTLByte_def list_ex_iff) blast

lemma no_CTL_by_class:
  "list_all P s \<Longrightarrow> (\<And>c. P c \<Longrightarrow> \<not> (ord c < 0x20 \<or> ord c = 0x7F)) \<Longrightarrow>
   \<not> stringContainsCTLByte s"
  by (auto simp: stringContainsCTLByte_def list_ex_iff list_all_iff)

lemma getScheme_loop_scheme:
  "list_all schemeByte s \<Longrightarrow> pre \<noteq> [] \<or> (s \<noteq> [] \<and> isAlpha (hd s)) \<Longrightarrow>
   getScheme_loop (pre @ s @ CHR '':'' # rest) (length pre) (s @ CHR '':'' # rest) =
     Some (pre @ s, rest)"
proof (induction s arbitrary: pre)
  case Nil
  then show ?case by (simp add: byte_facts)
next
  case (Cons c s)
  have step: "getScheme_loop ((pre @ [c]) @ s @ CHR '':'' # rest) (length (pre @ [c]))
        (s @ CHR '':'' # rest) = Some ((pre @ [c]) @ s, rest)"
    using Cons.prems by (intro Cons.IH) simp_all
  show ?case
  proof (cases "isAlpha c")
    case True
    then show ?thesis using step by simp
  next
    case False
    then have "pre \<noteq> []" using Cons.prems by simp
    moreover have "isDigit c \<or> c = CHR ''+'' \<or> c = CHR ''-'' \<or> c = CHR ''.''"
      using Cons.prems False by (simp add: schemeByte_def)
    ultimately show ?thesis using step False by simp
  qed
qed

lemma getScheme_scheme:
  "list_all schemeByte scheme \<Longrightarrow> scheme \<noteq> [] \<Longrightarrow> isAlpha (hd scheme) \<Longrightarrow>
   getScheme (scheme @ CHR '':'' # rest) = Some (scheme, rest)"
  using getScheme_loop_scheme [of scheme "[]" rest] by (simp add: getScheme_def)

lemma hostPortByte_plain:
  "hostPortByte c \<Longrightarrow> c \<noteq> CHR ''%'' \<and> \<not> shouldEscapeHost c"
  by (auto simp: hostPortByte_def hostNameByte_def shouldEscapeHost_def byte_facts)

lemma unescape_ok_host: "list_all hostPortByte s \<Longrightarrow> unescape_ok encodeHost s"
  by (induction s) (auto dest: hostPortByte_plain)

lemma unescape_text_host: "list_all hostPortByte s \<Longrightarrow> unescape_text encodeHost s = s"
  by (induction s) (auto dest: hostPortByte_plain)

lemma unescape_host: "list_all hostPortByte s \<Longrightarrow> unescape s encodeHost = Some s"
  by (simp add: unescape_def unescape_ok_host unescape_text_host)

lemma validOptionalPort_cases:
  "validOptionalPort port \<Longrightarrow> port = [] \<or> (\<exists>ds. port = CHR '':'' # ds \<and> list_all isDigit ds)"
  by (auto simp: validOptionalPort_def split: list.splits)

lemma hostPort_bytes:
  "list_all hostNameByte host \<Longrightarrow> validOptionalPort port \<Longrightarrow> list_all hostPortByte (host @ port)"
  by (auto simp: list_all_iff hostPortByte_def hostNameByte_def dest!: validOptionalPort_cases)

lemma HasPrefix_bracket:
  "list_all hostNameByte host \<Longrightarrow> validOptionalPort port \<Longrightarrow> \<not> HasPrefix (host @ port) ''[''"
  by (cases host) (auto simp: HasPrefix_def hostNameByte_not dest!: validOptionalPort_cases)

lemma parseHost_hostPort:
  assumes h: "list_all hostNameByte host" and p: "validOptionalPort port"
  shows "parseHost (host @ port) = Some (host @ port)"
proof -
  have nb: "\<not> HasPrefix (host @ port) ''[''" using h p by (rule HasPrefix_bracket)
  have un: "unescape (host @ port) encodeHost = Some (host @ port)"
    using hostPort_bytes [OF h p] by (rule unescape_host)
  have nc: "CHR '':'' \<notin> set host" using h hostNameByte_not(1) by (rule notin_by_class)
  from validOptionalPort_cases [OF p] show ?thesis
  proof
    assume "port = []"
    then show ?thesis using nb un nc by (simp add: parseHost_def LastIndexByte_None)
  next
    assume "\<exists>ds. port = CHR '':'' # ds \<and> list_all isDigit ds"
    then obtain ds where ds: "port = CHR '':'' # ds" "list_all isDigit ds" by blast
    have "CHR '':'' \<notin> set ds" using ds(2) byte_facts(2) by (rule notin_by_class)
    then have "LastIndexByte (host @ port) CHR '':'' = Some (length host)"
      unfolding ds(1) by (rule LastIndexByte_append)
    then show ?thesis using nb un p by (simp add: parseHost_def)
  qed
qed

lemma parseAuthority_hostPort:
  assumes h: "list_all hostNameByte host" and p: "validOptionalPort port"
  shows "parseAuthority (host @ port) = Some (None, host @ port)"
proof -
  have "list_all hostPortByte (host @ port)" using h p by (rule hostPort_bytes)
  moreover have "\<not> hostPortByte CHR ''@''"
    by (simp add: hostPortByte_def hostNameByte_not)
  ultimately have "CHR ''@'' \<notin> set (host @ port)" by (rule notin_by_class)
  then have "LastIndexByte (host @ port) CHR ''@'' = None" by (rule LastIndexByte_None)
  then show ?thesis by (simp add: parseAuthority_def parseHost_hostPort [OF h p])
qed

lemma Hostname_hostPort:
  assumes h: "list_all hostNameByte host" and p: "validOptionalPort port"
    and u: "Host u = host @ port"
  shows "Hostname u = host"
proof -
  have nb: "\<not> HasPrefix host ''[''"
    using HasPrefix_bracket [OF h, of "[]"] by (simp add: validOptionalPort_def)
  have nc: "CHR '':'' \<notin> set host" using h hostNameByte_not(1) by (rule notin_by_class)
  from validOptionalPort_cases [OF p] show ?thesis
  proof
    assume "port = []"
    then show ?thesis using nb nc u by (simp add: Hostname_def LastIndexByte_None)
  next
    assume "\<exists>ds. port = CHR '':'' # ds \<and> list_all isDigit ds"
    then obtain ds where ds: "port = CHR '':'' # ds" "list_all isDigit ds" by blast
    have "CHR '':'' \<notin> set ds" using ds(2) byte_facts(2) by (rule notin_by_class)
    then have "LastIndexByte (host @ port) CHR '':'' = Some (length host)"
      unfolding ds(1) by (rule LastIndexByte_append)
    then show ?thesis using nb u p by (simp add: Hostname_def)
  qed
qed


lemma HasSuffix_single: "HasSuffix s [c] = (s \<noteq> [] \<and> last s = c)"
  by (cases s rule: rev_cases) (simp_all add: HasSuffix_def)

lemma CountByte_append: "CountByte (a @ b) c = CountByte a c + CountByte b c"
  by (simp add: CountByte_def)

lemma CountByte_0: "c \<notin> set s \<Longrightarrow> CountByte s c = 0"
  by (induction s) (auto simp: CountByte_def)

lemma CountByte_Cons: "CountByte (x # xs) c = (if x = c then 1 else 0) + CountByte xs c"
  by (simp add: CountByte_def)

lemma CountByte_Nil: "CountByte [] c = 0"
  by (simp add: CountByte_def)

lemma CountByte_pos: "c \<in> set s \<Longrightarrow> 0 < CountByte s c"
  by (induction s) (auto simp: CountByte_def)

lemma query_split:
  assumes R: "CHR ''?'' \<notin> set R" and q: "query = [] \<or> hd query = CHR ''?''"
  shows "(HasSuffix (R @ query) ''?'' \<and> CountByte (R @ query) CHR ''?'' = 1) = (query = ''?'')"
    and "query = ''?'' \<Longrightarrow> butlast (R @ query) = R"
    and "query \<noteq> ''?'' \<Longrightarrow> Cut (R @ query) CHR ''?'' = (R, tl query, query \<noteq> [])"
proof -
  show "query = ''?'' \<Longrightarrow> butlast (R @ query) = R" by simp
  show "query \<noteq> ''?'' \<Longrightarrow> Cut (R @ query) CHR ''?'' = (R, tl query, query \<noteq> [])"
  proof (cases query)
    case Nil
    then show ?thesis using R by (simp add: Cut_None)
  next
    case (Cons c qs)
    then have "c = CHR ''?''" using q by simp
    then show ?thesis using R Cons by (simp add: Cut_append)
  qed
  show "(HasSuffix (R @ query) ''?'' \<and> CountByte (R @ query) CHR ''?'' = 1) = (query = ''?'')"
  proof (cases query)
    case Nil
    then show ?thesis using R by (simp add: CountByte_0)
  next
    case (Cons c qs)
    then have c: "c = CHR ''?''" using q by simp
    show ?thesis
    proof (cases "qs = []")
      case True
      then show ?thesis
        using R Cons c
        by (simp add: HasSuffix_single CountByte_append CountByte_0 CountByte_Cons CountByte_Nil)
    next
      case False
      have "\<not> (last qs = CHR ''?'' \<and> CountByte qs CHR ''?'' = 0)"
      proof
        assume a: "last qs = CHR ''?'' \<and> CountByte qs CHR ''?'' = 0"
        have "last qs \<in> set qs" using False by simp
        then have "CHR ''?'' \<in> set qs" using a by simp
        then have "0 < CountByte qs CHR ''?''" by (rule CountByte_pos)
        then show False using a by simp
      qed
      then show ?thesis
        using R Cons c False
        by (auto simp: HasSuffix_single CountByte_append CountByte_0 CountByte_Cons)
    qed
  qed
qed

lemma ToLower_Nil: "(ToLower s = []) = (s = [])"
  by (simp add: ToLower_def)

lemma Parse_origin:
  assumes scheme: "list_all schemeByte scheme" "scheme \<noteq> []" "isAlpha (hd scheme)"
    and host: "list_all hostNameByte host"
    and port: "validOptionalPort port"
    and path: "path = [] \<or> hd path = CHR ''/''" "CHR ''?'' \<notin> set path" "CHR ''#'' \<notin> set path"
    and query: "query = [] \<or> hd query = CHR ''?''" "CHR ''#'' \<notin> set query"
    and ctl: "\<not> stringContainsCTLByte (path @ query)"
  shows "Parse (scheme @ ''://'' @ host @ port @ path @ query) =
     (case unescape path encodePath of
        None \<Rightarrow> None
      | Some p \<Rightarrow>
          Some \<lparr>Scheme = ToLower scheme, Opaque = [], User = None, Host = host @ port,
                Path = p, ForceQuery = (query = ''?''), RawQuery = tl query, Fragment = []\<rparr>)"
proof -
  define R where "R = ''//'' @ host @ port @ path"
  define rest0 where "rest0 = R @ query"
  define raw where "raw = scheme @ CHR '':'' # rest0"
  have raw_eq: "scheme @ ''://'' @ host @ port @ path @ query = raw"
    by (simp add: raw_def rest0_def R_def)
  have hp: "list_all hostPortByte (host @ port)" using host port by (rule hostPort_bytes)
  have hp_not: "\<not> hostPortByte CHR ''#''" "\<not> hostPortByte CHR ''?''" "\<not> hostPortByte CHR ''/''"
    by (simp_all add: hostPortByte_def hostNameByte_not)
  have hp_notin: "CHR ''#'' \<notin> set (host @ port)" "CHR ''?'' \<notin> set (host @ port)"
      "CHR ''/'' \<notin> set (host @ port)"
    using hp hp_not by (blast intro: notin_by_class [THEN notE])+
  have s_notin: "CHR ''#'' \<notin> set scheme" "CHR ''*'' \<notin> set scheme"
    using scheme(1) schemeByte_not by (blast intro: notin_by_class [THEN notE])+
  have f1: "Cut raw CHR ''#'' = (raw, [], False)"
  proof (rule Cut_None)
    show "CHR ''#'' \<notin> set raw"
      using s_notin(1) hp_notin(1) path(3) query(2)
      by (simp add: raw_def rest0_def R_def)
  qed
  have f2: "\<not> stringContainsCTLByte raw"
  proof -
    have "\<not> stringContainsCTLByte scheme"
      using scheme(1) schemeByte_not_CTL by (rule no_CTL_by_class)
    moreover have "\<not> stringContainsCTLByte (host @ port)"
      using hp by (rule no_CTL_by_class)
        (auto simp: hostPortByte_def ord_def dest: hostNameByte_not_CTL)
    moreover have "\<not> stringContainsCTLByte ''://''"
      by (simp add: stringContainsCTLByte_def ord_def)
    moreover have "raw = scheme @ ''://'' @ (host @ port) @ (path @ query)"
      by (simp add: raw_def rest0_def R_def)
    ultimately show ?thesis using ctl by (simp only: CTL_append) simp
  qed
  have f3: "raw \<noteq> ''*''"
    using scheme(2) by (cases scheme) (simp_all add: raw_def)
  have f4: "getScheme raw = Some (scheme, rest0)"
    unfolding raw_def using scheme by (rule getScheme_scheme)
  have f5: "ToLower scheme \<noteq> []" using scheme(2) by (simp add: ToLower_Nil)
  have Rq: "CHR ''?'' \<notin> set R"
    using hp_notin(2) path(2) by (simp add: R_def)
  note f6 = query_split [OF Rq query(1), folded rest0_def]
  have f6': "(HasSuffix rest0 ''?'' \<and> CountByte rest0 CHR ''?'' = Suc 0) = (query = ''?'')"
    using f6(1) by simp
  have f7: "HasPrefix R ''/''" "HasPrefix R ''//''"
    by (simp_all add: R_def HasPrefix_def)
  have f8: "Cut (drop 2 R) CHR ''/'' = (host @ port, tl path, path \<noteq> [])"
  proof (cases path)
    case Nil
    then show ?thesis using hp_notin(3) by (simp add: R_def Cut_None)
  next
    case (Cons c ps)
    then have "c = CHR ''/''" using path(1) by simp
    then show ?thesis
      using Cons hp_notin(3) Cut_append [of "CHR ''/''" "host @ port" ps]
      by (simp add: R_def)
  qed
  have f8': "(if path \<noteq> [] then CHR ''/'' # tl path else []) = path"
    using path(1) by (cases path) simp_all
  have f9: "parseAuthority (host @ port) = Some (None, host @ port)"
    using host port by (rule parseAuthority_hostPort)
  show ?thesis
  proof (cases "query = ''?''")
    case True
    then show ?thesis
      unfolding raw_eq Parse_def parse_def
      using f6(2)
      by (simp add: f1 f2 f3 f4 f5 f6' f7 f8 f8' f9 Let_def emptyURL_def
          split: option.splits)
  next
    case False
    then show ?thesis
      unfolding raw_eq Parse_def parse_def
      using f6(3)
      by (simp add: f1 f2 f3 f4 f5 f6' f7 f8 f8' f9 Let_def emptyURL_def
          split: option.splits)
  qed
qed

section \<open>The verification of the client data\<close>

text \<open>
  C5. Whenever the type of the client data differs from the expected ceremony type,
  \<^verbatim>\<open>Verify\<close> returns the type-mismatch error (\<^verbatim>\<open>ErrVerification\<close> with the details
  "Error validating ceremony type"), whatever the stored challenge, the client
  challenge and the origins are: the type is checked first, before the challenge
  is decoded.
\<close>

theorem Verify_TypeMismatch_first:
  "Type c \<noteq> ceremony \<Longrightarrow>
   Verify c storedChallenge ceremony relyingPartyOrigin = Returned (Some TypeMismatch)"
  by (simp add: Verify_def)

theorem Verify_TypeMismatch_first_witness:
  "Type \<lparr>Type = CreateCeremony, Challenge = ''QVFJRA'', Origin = ''https://example.com'',
      TokenBinding = None\<rparr> \<noteq> AssertCeremony \<and>
   Verify \<lparr>Type = CreateCeremony, Challenge = ''QVFJRA'', Origin = ''https://example.com'',
      TokenBinding = None\<rparr> [1, 2, 3] AssertCeremony ''example.com''
     = Returned (Some TypeMismatch)"
proof -
  have h: "Type \<lparr>Type = CreateCeremony, Challenge = ''QVFJRA'',
      Origin = ''https://example.com'', TokenBinding = None\<rparr> \<noteq> AssertCeremony"
    by (simp add: CreateCeremony_def AssertCeremony_def)
  show ?thesis
    using h Verify_TypeMismatch_first [OF h, of "[1, 2, 3]" "''example.com''"] by simp
qed

text \<open>
  C9. \<^verbatim>\<open>Verify\<close> does not read the token binding: two client data values that differ
  only in their \<^verbatim>\<open>TokenBinding\<close> field get the same result, for the same stored
  challenge, ceremony type and Relying Party origin.
\<close>

theorem Verify_ignores_TokenBinding:
  "Verify (c\<lparr>TokenBinding := tb\<rparr>) storedChallenge ceremony relyingPartyOrigin =
   Verify c storedChallenge ceremony relyingPartyOrigin"
  by (simp add: Verify_def split: prod.splits option.splits)

theorem Verify_ignores_TokenBinding_witness:
  "Verify \<lparr>Type = AssertCeremony, Challenge = ''QVFJRA'', Origin = ''https://example.com'',
      TokenBinding = Some \<lparr>Status = Present, ID = ''abc''\<rparr>\<rparr>
     [1, 2, 3] AssertCeremony ''example.com'' =
   Verify \<lparr>Type = AssertCeremony, Challenge = ''QVFJRA'', Origin = ''https://example.com'',
      TokenBinding = None\<rparr> [1, 2, 3] AssertCeremony ''example.com''"
  using Verify_ignores_TokenBinding
    [where c = "\<lparr>Type = AssertCeremony, Challenge = ''QVFJRA'',
          Origin = ''https://example.com'', TokenBinding = None\<rparr>"
       and tb = "Some \<lparr>Status = Present, ID = ''abc''\<rparr>"
       and storedChallenge = "[1, 2, 3]" and ceremony = AssertCeremony
       and relyingPartyOrigin = "''example.com''"]
  by simp

text \<open>
  C1. The claim is that \<^verbatim>\<open>Verify\<close> accepts exactly when the bytes decoded from the
  client challenge equal the stored challenge. At the stored challenge 1, 2, 3 the
  code does neither half: the client challenge \<^verbatim>\<open>AQID\<close>, which decodes to 1, 2, 3,
  makes \<^verbatim>\<open>Verify\<close> panic (the buffer of three bytes is too short for the four bytes
  \<^verbatim>\<open>Encode\<close> writes), and the client challenge \<^verbatim>\<open>QVFJRA\<close>, which decodes to the four
  characters \<^verbatim>\<open>AQID\<close> and not to 1, 2, 3, is accepted.
\<close>

theorem Verify_challenge_not_raw_bytes:
  "fst (DecodeString ''AQID'') = [1, 2, 3] \<and>
   Verify \<lparr>Type = AssertCeremony, Challenge = ''AQID'', Origin = ''https://example.com'',
      TokenBinding = None\<rparr> [1, 2, 3] AssertCeremony ''example.com'' = Panicked \<and>
   fst (DecodeString ''QVFJRA'') \<noteq> [1, 2, 3] \<and>
   Verify \<lparr>Type = AssertCeremony, Challenge = ''QVFJRA'', Origin = ''https://example.com'',
      TokenBinding = None\<rparr> [1, 2, 3] AssertCeremony ''example.com'' = Returned None"
  by code_simp

text \<open>
  C6. The claim is that \<^verbatim>\<open>Verify\<close> never panics. It panics on the empty client
  challenge with the stored challenge of one byte, and on the client challenge \<^verbatim>\<open>!!\<close>,
  which is not base64, with the stored challenge 1, 2, 3, where the claim expects the
  error for a malformed challenge.
\<close>

theorem Verify_panics_on_short_challenge:
  "Verify \<lparr>Type = AssertCeremony, Challenge = [], Origin = ''https://example.com'',
      TokenBinding = None\<rparr> [1] AssertCeremony ''example.com'' = Panicked \<and>
   Verify \<lparr>Type = AssertCeremony, Challenge = ''!!'', Origin = ''https://example.com'',
      TokenBinding = None\<rparr> [1, 2, 3] AssertCeremony ''example.com'' = Panicked"
  by code_simp

text \<open>
  C4. The claim is that the origin of the client data is compared with the origin of
  the Relying Party by scheme, host and port. The code compares the host name of the
  client origin with the configured text as a whole. With \<^verbatim>\<open>example.com\<close> configured
  it accepts both \<^verbatim>\<open>https://example.com\<close> and \<^verbatim>\<open>http://example.com:8080\<close>, which
  differ from each other in scheme and port, so at most one of them can be the origin
  of the Relying Party. With the origin \<^verbatim>\<open>https://example.com\<close> configured it rejects
  the very same origin from the client.
\<close>

theorem Verify_origin_not_matched:
  "Verify \<lparr>Type = AssertCeremony, Challenge = ''QVFJRA'', Origin = ''https://example.com'',
      TokenBinding = None\<rparr> [1, 2, 3] AssertCeremony ''example.com'' = Returned None \<and>
   Verify \<lparr>Type = AssertCeremony, Challenge = ''QVFJRA'', Origin = ''http://example.com:8080'',
      TokenBinding = None\<rparr> [1, 2, 3] AssertCeremony ''example.com'' = Returned None \<and>
   Verify \<lparr>Type = AssertCeremony, Challenge = ''QVFJRA'', Origin = ''https://example.com'',
      TokenBinding = None\<rparr> [1, 2, 3] AssertCeremony ''https://example.com''
     = Returned (Some OriginMismatch)"
  by code_simp

lemma Verify_origin_step:
  assumes "Type c = ceremony"
    and "DecodeString (Challenge c) = (bs, False)"
    and "Encode (replicate (length bs) 0) storedChallenge = Some bs"
  shows "Verify c storedChallenge ceremony relyingPartyOrigin =
     Returned (verifyOrigin (Origin c) relyingPartyOrigin)"
  using assms by (simp add: Verify_def)

text \<open>
  How far the comparison of the host name goes: for a client origin
  \<^verbatim>\<open>scheme://host:port/path?query\<close> (the port, the path and the query may be missing;
  the host is a name of letters, digits, \<^verbatim>\<open>-\<close> and \<^verbatim>\<open>.\<close>) that reaches the check of
  the origin, the result of \<^verbatim>\<open>Verify\<close> depends on the host alone, as long as the
  percent-escapes of the path are well-formed. The scheme and the port have no
  influence.
\<close>

lemma Verify_origin_hostname_only:
  assumes "Type c = ceremony"
    and "DecodeString (Challenge c) = (bs, False)"
    and "Encode (replicate (length bs) 0) storedChallenge = Some bs"
    and origin: "Origin c = scheme @ ''://'' @ host @ port @ path @ query"
    and scheme: "list_all schemeByte scheme" "scheme \<noteq> []" "isAlpha (hd scheme)"
    and host: "list_all hostNameByte host"
    and port: "validOptionalPort port"
    and path: "path = [] \<or> hd path = CHR ''/''" "CHR ''?'' \<notin> set path" "CHR ''#'' \<notin> set path"
    and query: "query = [] \<or> hd query = CHR ''?''" "CHR ''#'' \<notin> set query"
    and ctl: "\<not> stringContainsCTLByte (path @ query)"
  shows "Verify c storedChallenge ceremony relyingPartyOrigin =
     Returned (if \<not> unescape_ok encodePath path then Some MalformedOrigin
               else if host = relyingPartyOrigin then None
               else Some OriginMismatch)"
proof -
  have v: "Verify c storedChallenge ceremony relyingPartyOrigin =
      Returned (verifyOrigin (Origin c) relyingPartyOrigin)"
    using assms(1-3) by (rule Verify_origin_step)
  note p = Parse_origin [OF scheme host port path query ctl]
  show ?thesis
  proof (cases "unescape_ok encodePath path")
    case False
    then have "Parse (Origin c) = None"
      unfolding origin p by (simp add: unescape_def)
    then show ?thesis using False v by (simp add: verifyOrigin_def)
  next
    case True
    then obtain u where u: "Parse (Origin c) = Some u" and hu: "Host u = host @ port"
      unfolding origin p by (simp add: unescape_def)
    have "Hostname u = host" using host port hu by (rule Hostname_hostPort)
    then show ?thesis using True v u by (simp add: verifyOrigin_def)
  qed
qed

lemma Verify_origin_hostname_only_example:
  "Verify \<lparr>Type = AssertCeremony, Challenge = ''QVFJRA'',
      Origin = ''http://example.com:8080/login?next=1'', TokenBinding = None\<rparr>
     [1, 2, 3] AssertCeremony ''example.com'' = Returned None \<and>
   Verify \<lparr>Type = AssertCeremony, Challenge = ''QVFJRA'',
      Origin = ''https://www.example.com/'', TokenBinding = None\<rparr>
     [1, 2, 3] AssertCeremony ''example.com'' = Returned (Some OriginMismatch)"
proof -
  let ?c1 = "\<lparr>Type = AssertCeremony, Challenge = ''QVFJRA'',
      Origin = ''http://example.com:8080/login?next=1'', TokenBinding = None\<rparr>"
  let ?c2 = "\<lparr>Type = AssertCeremony, Challenge = ''QVFJRA'',
      Origin = ''https://www.example.com/'', TokenBinding = None\<rparr>"
  have d1: "DecodeString (Challenge ?c1) = ([65, 81, 73, 68], False)" by code_simp
  have d2: "DecodeString (Challenge ?c2) = ([65, 81, 73, 68], False)" by code_simp
  have e: "Encode (replicate (length [65, 81, 73, 68 :: byte]) 0) [1, 2, 3] =
      Some [65, 81, 73, 68]" by code_simp
  have o1: "Origin ?c1 = ''http'' @ ''://'' @ ''example.com'' @ '':8080'' @ ''/login'' @ ''?next=1''"
    by simp
  have o2: "Origin ?c2 = ''https'' @ ''://'' @ ''www.example.com'' @ [] @ ''/'' @ []"
    by simp
  have s1: "list_all schemeByte ''http''" "''http'' \<noteq> []" "isAlpha (hd ''http'')"
    by code_simp+
  have s2: "list_all schemeByte ''https''" "''https'' \<noteq> []" "isAlpha (hd ''https'')"
    by code_simp+
  have h1: "list_all hostNameByte ''example.com''" by code_simp
  have h2: "list_all hostNameByte ''www.example.com''" by code_simp
  have p1: "validOptionalPort '':8080''" by code_simp
  have p2: "validOptionalPort []" by code_simp
  have pa1: "''/login'' = [] \<or> hd ''/login'' = CHR ''/''" "CHR ''?'' \<notin> set ''/login''"
    "CHR ''#'' \<notin> set ''/login''" by simp_all
  have pa2: "''/'' = [] \<or> hd ''/'' = CHR ''/''" "CHR ''?'' \<notin> set ''/''"
    "CHR ''#'' \<notin> set ''/''" by simp_all
  have q1: "''?next=1'' = [] \<or> hd ''?next=1'' = CHR ''?''" "CHR ''#'' \<notin> set ''?next=1''"
    by simp_all
  have q2: "([] :: string) = [] \<or> hd [] = CHR ''?''" "CHR ''#'' \<notin> set []"
    by simp_all
  have c1: "\<not> stringContainsCTLByte (''/login'' @ ''?next=1'')" by code_simp
  have c2: "\<not> stringContainsCTLByte (''/'' @ [])" by code_simp
  have u1: "unescape_ok encodePath ''/login''" by code_simp
  have u2: "unescape_ok encodePath ''/''" by code_simp
  have n: "''www.example.com'' \<noteq> ''example.com''" by simp
  have t: "Type ?c1 = AssertCeremony" "Type ?c2 = AssertCeremony" by simp_all
  show ?thesis
    using Verify_origin_hostname_only [OF t(1) d1 e o1 s1 h1 p1 pa1 q1 c1, of "''example.com''"]
      Verify_origin_hostname_only [OF t(2) d2 e o2 s2 h2 p2 pa2 q2 c2, of "''example.com''"]
      u1 u2 n
    by simp
qed

section \<open>The login ceremony\<close>

text \<open>
  C3. The claim is that a user whose ID differs from the user ID of the session is
  rejected at once, before the request is parsed. With the user ID 1 and the session
  user ID 2 the code parses the request all the same: the result is an error only if
  the parser fails (and then the error of the parser's failure, not one for the
  mismatch), it is \<^verbatim>\<open>nil, nil\<close> otherwise, and the request is as the parser left it.
\<close>

theorem FinishLogin_user_mismatch_not_rejected:
  "FinishLogin P webauthn \<lparr>WebAuthnID = [1]\<rparr>
     \<lparr>SessionData_Challenge = challenge, UserID = [2]\<rparr> request =
     ((None, case fst (P request) of
               Inl err \<Rightarrow> Some (WithDetails ErrBadRequest ''fuddck'')
             | Inr parsedResponse \<Rightarrow> None),
      snd (P request))"
  by (simp add: FinishLogin_def split: prod.splits sum.splits)

text \<open>
  C10. \<^verbatim>\<open>FinishLogin\<close> returns a \<^verbatim>\<open>nil\<close> credential for every user, session and
  request, and when the request parses it returns \<^verbatim>\<open>nil, nil\<close>.
\<close>

theorem FinishLogin_nil_credential:
  "fst (fst (FinishLogin P webauthn user session request)) = None \<and>
   (\<forall>parsedResponse request'. P request = (Inr parsedResponse, request') \<longrightarrow>
      FinishLogin P webauthn user session request = ((None, None), request'))"
  by (simp add: FinishLogin_def split: prod.splits sum.splits)

theorem FinishLogin_nil_credential_witness:
  "(\<lambda>body :: string. (Inr \<lparr>Type = AssertCeremony, Challenge = ''QVFJRA'',
        Origin = ''https://example.com'', TokenBinding = None\<rparr> :: Error + CollectedClientData,
      [] :: string)) ''body'' =
     (Inr \<lparr>Type = AssertCeremony, Challenge = ''QVFJRA'', Origin = ''https://example.com'',
        TokenBinding = None\<rparr>, []) \<and>
   FinishLogin
     (\<lambda>body :: string. (Inr \<lparr>Type = AssertCeremony, Challenge = ''QVFJRA'',
        Origin = ''https://example.com'', TokenBinding = None\<rparr> :: Error + CollectedClientData,
      [] :: string))
     \<lparr>Config = \<lparr>Timeout = 60000\<rparr>\<rparr> \<lparr>WebAuthnID = [7]\<rparr>
     \<lparr>SessionData_Challenge = [1, 2, 3], UserID = [7]\<rparr> ''body'' =
     ((None :: unit option, None), [])"
proof -
  let ?P = "\<lambda>body :: string. (Inr \<lparr>Type = AssertCeremony, Challenge = ''QVFJRA'',
        Origin = ''https://example.com'', TokenBinding = None\<rparr> :: Error + CollectedClientData,
      [] :: string)"
  let ?r = "FinishLogin ?P \<lparr>Config = \<lparr>Timeout = 60000\<rparr>\<rparr> \<lparr>WebAuthnID = [7]\<rparr>
     \<lparr>SessionData_Challenge = [1, 2, 3], UserID = [7]\<rparr> ''body''
     :: (unit option \<times> Error option) \<times> string"
  have "fst (fst ?r) = None \<and>
    (\<forall>parsedResponse request'. ?P ''body'' = (Inr parsedResponse, request') \<longrightarrow>
       ?r = ((None, None), request'))"
    by (rule FinishLogin_nil_credential)
  then show ?thesis by simp
qed

text \<open>
  C2, as it is claimed: \<^verbatim>\<open>FinishLogin\<close> runs \<^verbatim>\<open>Verify\<close> on the client data of the parsed
  response with the challenge of the session and the ceremony type of an assertion,
  and succeeds only if that verification does. Here the parsed response carries
  client data of the registration ceremony, which \<^verbatim>\<open>Verify\<close> rejects with the
  type-mismatch error, and \<^verbatim>\<open>FinishLogin\<close> returns \<^verbatim>\<open>nil, nil\<close> all the same. (The
  parser of this example answers every request with that response and leaves an
  empty body.)
\<close>

theorem FinishLogin_succeeds_where_Verify_fails:
  "Verify \<lparr>Type = CreateCeremony, Challenge = ''QVFJRA'', Origin = ''https://example.com'',
      TokenBinding = None\<rparr> [1, 2, 3] AssertCeremony ''example.com''
     = Returned (Some TypeMismatch) \<and>
   FinishLogin
     (\<lambda>body :: string. (Inr \<lparr>Type = CreateCeremony, Challenge = ''QVFJRA'',
        Origin = ''https://example.com'', TokenBinding = None\<rparr> :: Error + CollectedClientData,
      [] :: string))
     \<lparr>Config = \<lparr>Timeout = 60000\<rparr>\<rparr> \<lparr>WebAuthnID = [7]\<rparr>
     \<lparr>SessionData_Challenge = [1, 2, 3], UserID = [7]\<rparr> ''body'' =
     ((None :: unit option, None), [])"
  by (simp add: FinishLogin_def Verify_def CreateCeremony_def AssertCeremony_def)

text \<open>
  C2, amended: for a user and a session with the same ID, \<^verbatim>\<open>FinishLogin\<close> does not run
  the verification of the client data. Whatever the challenge of the session and the
  client data of the response are, it returns a \<^verbatim>\<open>nil\<close> credential with the error
  \<^verbatim>\<open>ErrBadRequest\<close> (details "fuddck") when the request does not parse, and \<^verbatim>\<open>nil, nil\<close>
  when it parses. It returns no credential, hence none on partial success.
\<close>

theorem FinishLogin_result_from_parse_only:
  "WebAuthnID user = UserID session \<Longrightarrow>
   FinishLogin P webauthn user session request =
     ((None, case fst (P request) of
               Inl err \<Rightarrow> Some (WithDetails ErrBadRequest ''fuddck'')
             | Inr parsedResponse \<Rightarrow> None),
      snd (P request))"
  by (simp add: FinishLogin_def split: prod.splits sum.splits)

theorem FinishLogin_result_from_parse_only_witness:
  "FinishLogin
     (\<lambda>body :: string. (Inr \<lparr>Type = CreateCeremony, Challenge = ''QVFJRA'',
        Origin = ''https://example.com'', TokenBinding = None\<rparr> :: Error + CollectedClientData,
      [] :: string))
     \<lparr>Config = \<lparr>Timeout = 60000\<rparr>\<rparr> \<lparr>WebAuthnID = [7]\<rparr>
     \<lparr>SessionData_Challenge = [1, 2, 3], UserID = [7]\<rparr> ''body'' =
     ((None :: unit option, None), []) \<and>
   FinishLogin
     (\<lambda>body :: string. (Inl (WithDetails ErrParsingData ''bad body'') :: Error + CollectedClientData,
      [] :: string))
     \<lparr>Config = \<lparr>Timeout = 60000\<rparr>\<rparr> \<lparr>WebAuthnID = [7]\<rparr>
     \<lparr>SessionData_Challenge = [1, 2, 3], UserID = [7]\<rparr> ''body'' =
     ((None :: unit option, Some (WithDetails ErrBadRequest ''fuddck'')), [])"
proof -
  let ?u = "\<lparr>WebAuthnID = [7 :: byte]\<rparr>"
  let ?s = "\<lparr>SessionData_Challenge = [1, 2, 3 :: byte], UserID = [7 :: byte]\<rparr>"
  let ?w = "\<lparr>Config = \<lparr>Timeout = 60000\<rparr>\<rparr>"
  let ?P1 = "\<lambda>body :: string. (Inr \<lparr>Type = CreateCeremony, Challenge = ''QVFJRA'',
        Origin = ''https://example.com'', TokenBinding = None\<rparr> :: Error + CollectedClientData,
      [] :: string)"
  let ?P2 = "\<lambda>body :: string.
      (Inl (WithDetails ErrParsingData ''bad body'') :: Error + CollectedClientData,
      [] :: string)"
  have h: "WebAuthnID ?u = UserID ?s" by simp
  have "(FinishLogin ?P1 ?w ?u ?s ''body'' :: (unit option \<times> Error option) \<times> string) =
     ((None, case fst (?P1 ''body'') of
               Inl err \<Rightarrow> Some (WithDetails ErrBadRequest ''fuddck'')
             | Inr parsedResponse \<Rightarrow> None),
      snd (?P1 ''body''))"
    using h by (rule FinishLogin_result_from_parse_only)
  moreover have "(FinishLogin ?P2 ?w ?u ?s ''body'' :: (unit option \<times> Error option) \<times> string) =
     ((None, case fst (?P2 ''body'') of
               Inl err \<Rightarrow> Some (WithDetails ErrBadRequest ''fuddck'')
             | Inr parsedResponse \<Rightarrow> None),
      snd (?P2 ''body''))"
    using h by (rule FinishLogin_result_from_parse_only)
  ultimately show ?thesis by simp
qed





end
